theory Spec2Isabelle
  imports Complex_Main "HOL-Library.Log_Nat"
begin

section \<open>JavaScript numbers\<close>

text \<open>
  Every number of \<^verbatim>\<open>shamir_solver.js\<close> is a JavaScript Number, an IEEE 754 binary64
  value. The embedding keeps the value of a finite double as a rational: \<open>Fin r\<close> is the double
  whose value is \<open>r\<close> (\<open>Fin 0\<close> is \<open>+0\<close>), \<open>NZero\<close> is \<open>-0\<close>, \<open>PInf\<close> and \<open>NInf\<close> are the two
  infinities and \<open>NaN\<close> is the not-a-number value.
\<close>

datatype jsnum = NaN | PInf | NInf | NZero | Fin rat

definition js_inf :: "jsnum \<Rightarrow> bool" where
  "js_inf a = (a = PInf \<or> a = NInf)"

definition js_zero :: "jsnum \<Rightarrow> bool" where
  "js_zero a = (a = NZero \<or> a = Fin 0)"

definition js_nonfinite :: "jsnum \<Rightarrow> bool" where
  "js_nonfinite a = (a = NaN \<or> a = PInf \<or> a = NInf)"

text \<open>The sign bit (of no use on \<open>NaN\<close>).\<close>

fun js_negative :: "jsnum \<Rightarrow> bool" where
  "js_negative NInf = True"
| "js_negative NZero = True"
| "js_negative (Fin r) = (r < 0)"
| "js_negative _ = False"

fun rat_of :: "jsnum \<Rightarrow> rat" where
  "rat_of (Fin r) = r"
| "rat_of _ = 0"

definition mk_inf :: "bool \<Rightarrow> jsnum" where
  "mk_inf s = (if s then NInf else PInf)"

definition mk_zero :: "bool \<Rightarrow> jsnum" where
  "mk_zero s = (if s then NZero else Fin 0)"

text \<open>Rounding a rational to the nearest integer, a tie going to the even one.\<close>

definition round_even :: "rat \<Rightarrow> int" where
  "round_even x =
     (let f = \<lfloor>x\<rfloor>; d = x - of_int f
      in if d < 1 / 2 then f else if 1 / 2 < d then f + 1 else if even f then f else f + 1)"

text \<open>
  Rounding a rational \<open>r\<close> to the nearest value of a binary floating-point format (round to
  nearest, ties to even), the rounding every arithmetic operation of IEEE 754 applies to its
  exact result. The format has \<open>p\<close> significant bits, its values are the integer multiples of
  \<open>2 ^ -w\<close> that fit, and \<open>2 ^ m\<close> is the first power of two beyond its range. With \<open>x\<close>
  the magnitude scaled by \<open>2 ^ w\<close>, \<open>p\<close> significant bits remain when the last
  \<open>s = bitlength \<lfloor>x\<rfloor> - p\<close> bits are rounded away (none in the subnormal range, where the
  truncating subtraction gives \<open>s = 0\<close>). A result of \<open>2 ^ m\<close> or more overflows to an
  infinity, a result of zero keeps the sign of \<open>r\<close>.
\<close>

definition round_to_format :: "nat \<Rightarrow> nat \<Rightarrow> nat \<Rightarrow> rat \<Rightarrow> jsnum" where
  "round_to_format p w m r =
     (if r = 0 then Fin 0
      else let x = \<bar>r\<bar> * 2 ^ w;
               s = floorlog 2 (nat \<lfloor>x\<rfloor>) - p;
               v = of_int (round_even (x / 2 ^ s)) * 2 ^ s / 2 ^ w
           in if 2 ^ m \<le> v then mk_inf (r < 0)
              else if v = 0 then mk_zero (r < 0)
              else Fin (if r < 0 then - v else v))"

text \<open>
  binary64: 53 significant bits, the smallest subnormal is \<open>2 ^ -1074\<close>, the largest double is
  just below \<open>2 ^ 1024\<close>.
\<close>

definition fl :: "rat \<Rightarrow> jsnum" where
  "fl r = round_to_format 53 1074 1024 r"

text \<open>
  A finite double whose value is an integer (both zeros are): rounding leaves a double
  unchanged.
\<close>

definition js_integer :: "jsnum \<Rightarrow> bool" where
  "js_integer a =
     (case a of Fin r \<Rightarrow> fl r = Fin r \<and> of_int \<lfloor>r\<rfloor> = r | NZero \<Rightarrow> True | _ \<Rightarrow> False)"

subsection \<open>Arithmetic\<close>

text \<open>Unary minus flips the sign bit.\<close>

fun js_uminus :: "jsnum \<Rightarrow> jsnum" where
  "js_uminus NaN = NaN"
| "js_uminus PInf = NInf"
| "js_uminus NInf = PInf"
| "js_uminus NZero = Fin 0"
| "js_uminus (Fin r) = (if r = 0 then NZero else Fin (- r))"

text \<open>
  \<open>a + b\<close>: opposite infinities give \<open>NaN\<close>; \<open>-0\<close> is neutral (\<open>-0 + -0 = -0\<close>,
  \<open>-0 + +0 = +0\<close>); an exact sum of zero is \<open>+0\<close>.
\<close>

fun js_add :: "jsnum \<Rightarrow> jsnum \<Rightarrow> jsnum" where
  "js_add NaN b = NaN"
| "js_add a NaN = NaN"
| "js_add PInf NInf = NaN"
| "js_add NInf PInf = NaN"
| "js_add PInf b = PInf"
| "js_add NInf b = NInf"
| "js_add a PInf = PInf"
| "js_add a NInf = NInf"
| "js_add NZero b = b"
| "js_add a NZero = a"
| "js_add (Fin r) (Fin q) = fl (r + q)"

text \<open>\<open>a - b\<close> is \<open>a + (-b)\<close> in IEEE 754, signs of zero included.\<close>

definition js_sub :: "jsnum \<Rightarrow> jsnum \<Rightarrow> jsnum" where
  "js_sub a b = js_add a (js_uminus b)"

text \<open>\<open>a * b\<close>: the sign is the exclusive or of the signs; \<open>\<infinity> * 0\<close> is \<open>NaN\<close>.\<close>

definition js_mul :: "jsnum \<Rightarrow> jsnum \<Rightarrow> jsnum" where
  "js_mul a b =
     (if a = NaN \<or> b = NaN then NaN
      else let s = (js_negative a \<noteq> js_negative b)
           in if js_inf a then (if js_zero b then NaN else mk_inf s)
              else if js_inf b then (if js_zero a then NaN else mk_inf s)
              else if js_zero a \<or> js_zero b then mk_zero s
              else fl (rat_of a * rat_of b))"

text \<open>
  \<open>a / b\<close>: \<open>\<infinity> / \<infinity>\<close> and \<open>0 / 0\<close> are \<open>NaN\<close>; a non-zero number over a zero is an
  infinity, nothing is raised.
\<close>

definition js_div :: "jsnum \<Rightarrow> jsnum \<Rightarrow> jsnum" where
  "js_div a b =
     (if a = NaN \<or> b = NaN then NaN
      else let s = (js_negative a \<noteq> js_negative b)
           in if js_inf a then (if js_inf b then NaN else mk_inf s)
              else if js_inf b then mk_zero s
              else if js_zero b then (if js_zero a then NaN else mk_inf s)
              else if js_zero a then mk_zero s
              else fl (rat_of a / rat_of b))"

text \<open>\<^verbatim>\<open>Math.abs\<close>.\<close>

fun js_abs :: "jsnum \<Rightarrow> jsnum" where
  "js_abs NaN = NaN"
| "js_abs PInf = PInf"
| "js_abs NInf = PInf"
| "js_abs NZero = Fin 0"
| "js_abs (Fin r) = Fin \<bar>r\<bar>"

text \<open>
  \<^verbatim>\<open>Math.round\<close>: the integer nearest to the argument, a tie going up (towards \<open>+\<infinity>\<close>);
  an argument in \<open>[-0.5, 0)\<close> gives \<open>-0\<close>; \<open>NaN\<close>, the infinities and the zeros are returned
  as they are.
\<close>

fun js_round :: "jsnum \<Rightarrow> jsnum" where
  "js_round (Fin r) =
     (let z = \<lfloor>r + 1 / 2\<rfloor> in if z = 0 then mk_zero (r < 0) else Fin (of_int z))"
| "js_round a = a"

text \<open>The comparisons \<^verbatim>\<open><\<close> and \<^verbatim>\<open><=\<close>: false when an operand is \<open>NaN\<close>, the zeros equal.\<close>

fun js_less :: "jsnum \<Rightarrow> jsnum \<Rightarrow> bool" where
  "js_less NaN b = False"
| "js_less a NaN = False"
| "js_less a NInf = False"
| "js_less PInf b = False"
| "js_less NInf b = True"
| "js_less a PInf = True"
| "js_less a b = (rat_of a < rat_of b)"

fun js_le :: "jsnum \<Rightarrow> jsnum \<Rightarrow> bool" where
  "js_le NaN b = False"
| "js_le a NaN = False"
| "js_le NInf b = True"
| "js_le a PInf = True"
| "js_le a NInf = False"
| "js_le PInf b = False"
| "js_le a b = (rat_of a \<le> rat_of b)"

text \<open>Strict equality \<^verbatim>\<open>===\<close> of two numbers: \<open>NaN\<close> equals nothing, \<open>+0\<close> equals \<open>-0\<close>.\<close>

definition js_eq :: "jsnum \<Rightarrow> jsnum \<Rightarrow> bool" where
  "js_eq a b = (a \<noteq> NaN \<and> b \<noteq> NaN \<and> (a = b \<or> (js_zero a \<and> js_zero b)))"

text \<open>
  \<open>ToInt32\<close>: \<open>NaN\<close>, the infinities and the zeros give 0; anything else is truncated
  towards zero and reduced modulo \<open>2 ^ 32\<close> into the signed range.
\<close>

definition to_int32 :: "jsnum \<Rightarrow> int" where
  "to_int32 a =
     (case a of
        Fin r \<Rightarrow>
          (let t = (if r < 0 then - \<lfloor>- r\<rfloor> else \<lfloor>r\<rfloor>); m = t mod 2 ^ 32
           in if 2 ^ 31 \<le> m then m - 2 ^ 32 else m)
      | _ \<Rightarrow> 0)"

section \<open>Strings\<close>

text \<open>
  A string is a list of code units; the model has the code units below 256. The white space
  \<^verbatim>\<open>parseInt\<close> skips is then TAB, LF, VT, FF, CR, SP and NBSP.
\<close>

definition is_white :: "char \<Rightarrow> bool" where
  "is_white c = ((of_char c :: nat) \<in> {9, 10, 11, 12, 13, 32, 160})"

text \<open>The value of a digit: \<open>0-9\<close>, then \<open>a-z\<close> or \<open>A-Z\<close> for 10 to 35.\<close>

definition digitVal :: "char \<Rightarrow> nat option" where
  "digitVal c =
     (let u = (of_char c :: nat)
      in if 48 \<le> u \<and> u \<le> 57 then Some (u - 48)
         else if 97 \<le> u \<and> u \<le> 122 then Some (u - 87)
         else if 65 \<le> u \<and> u \<le> 90 then Some (u - 55)
         else None)"

definition radix_digit :: "int \<Rightarrow> char \<Rightarrow> bool" where
  "radix_digit R c = (case digitVal c of None \<Rightarrow> False | Some d \<Rightarrow> int d < R)"

text \<open>The integer a string of radix-\<open>R\<close> digits denotes.\<close>

definition mathInt :: "int \<Rightarrow> string \<Rightarrow> int" where
  "mathInt R Z = foldl (\<lambda>acc c. acc * R + (case digitVal c of None \<Rightarrow> 0 | Some d \<Rightarrow> int d)) 0 Z"

text \<open>
  \<^verbatim>\<open>parseInt(string, radix)\<close>, step by step as ECMA-262 gives it: leading white space is
  dropped, a sign is read, the radix goes through \<open>ToInt32\<close> (0 means 10 and lets a
  \<^verbatim>\<open>0x\<close> prefix select 16; outside 2 to 36 the result is \<open>NaN\<close>), the longest prefix of
  radix digits is taken and whatever follows it is ignored; the result is \<open>NaN\<close> only when
  that prefix is empty. The integer read is returned as a Number, that is rounded to the
  nearest double. A call with no radix is a call with radix \<open>NaN\<close>, which \<open>ToInt32\<close> sends
  to 0 as it does \<^verbatim>\<open>undefined\<close>.

  The standard fixes the integer read (\<open>mathInt\<close>) except in two cases, where the engine may
  take an approximation of it: in a radix that is not 2, 4, 8, 10, 16 or 32, and in radix 10
  beyond 20 significant digits (the later digits may be read as 0). \<^verbatim>\<open>parseInt\<close> is a
  built-in of the engine that runs the source, not code of the repository, so the engine's
  reading is a parameter of the model: \<open>engine R Z\<close> is the integer the engine takes for the
  digits \<open>Z\<close> in radix \<open>R\<close>. It is consulted in those two cases only and nothing is assumed
  of it; every function that reaches \<^verbatim>\<open>parseInt\<close> carries it, and a theorem in which it is
  free holds on every engine. Where a statement is about one run, the engine is \<open>mathInt\<close>
  itself, the engine that reads every digit.
\<close>

type_synonym engine = "int \<Rightarrow> string \<Rightarrow> int"

text \<open>The significant digits: what is left without the leading zeros.\<close>

definition significant :: "string \<Rightarrow> string" where
  "significant Z = dropWhile (\<lambda>c. c = CHR ''0'') Z"

text \<open>The cases in which the standard allows an approximation.\<close>

definition approximable :: "int \<Rightarrow> string \<Rightarrow> bool" where
  "approximable R Z =
     (if R = 2 \<or> R = 4 \<or> R = 8 \<or> R = 16 \<or> R = 32 then False
      else if R = 10 then 20 < length (significant Z)
      else True)"

definition parseInt :: "engine \<Rightarrow> string \<Rightarrow> jsnum \<Rightarrow> jsnum" where
  "parseInt engine inputString radix =
     (let S0 = dropWhile is_white inputString;
          neg = (S0 \<noteq> [] \<and> hd S0 = CHR ''-'');
          S1 = (if S0 \<noteq> [] \<and> (hd S0 = CHR ''+'' \<or> hd S0 = CHR ''-'') then tl S0 else S0);
          R0 = to_int32 radix
      in if R0 \<noteq> 0 \<and> (R0 < 2 \<or> 36 < R0) then NaN
         else let hex = ((R0 = 0 \<or> R0 = 16) \<and> (take 2 S1 = ''0x'' \<or> take 2 S1 = ''0X''));
                  R = (if hex then 16 else if R0 = 0 then 10 else R0);
                  S2 = (if hex then drop 2 S1 else S1);
                  Z = takeWhile (radix_digit R) S2
              in if Z = [] then NaN
                 else let i = (if approximable R Z then engine R Z else mathInt R Z)
                      in if i = 0 then mk_zero neg
                         else fl (of_int (if neg then - i else i)))"

text \<open>\<^verbatim>\<open>i.toString()\<close> of an integer: its decimal digits, a minus sign before a negative one.\<close>

fun show_nat :: "nat \<Rightarrow> string" where
  "show_nat i =
     (if i < 10 then [''0123456789'' ! i] else show_nat (i div 10) @ [''0123456789'' ! (i mod 10)])"

definition toString :: "int \<Rightarrow> string" where
  "toString i = (if i < 0 then CHR ''-'' # show_nat (nat (- i)) else show_nat (nat i))"

section \<open>The solver\<close>

text \<open>
  Each \<^verbatim>\<open>throw new Error(message)\<close> of the source is a constructor, carrying what the
  message interpolates:
  \<^item> \<open>InvalidBase base\<close>: \<^verbatim>\<open>Invalid base: ${base}. Base must be between 2 and 36.\<close>
  \<^item> \<open>InvalidValue value base\<close>: \<^verbatim>\<open>Invalid value "${value}" for base ${base}\<close>
  \<^item> \<open>NeedAtLeast k len\<close>: \<^verbatim>\<open>Need at least ${k} points, but only ${points.length} provided\<close>
  \<^item> \<open>MissingKeys\<close>: \<^verbatim>\<open>Invalid test case format: missing keys.n or keys.k\<close>
  \<^item> \<open>DecodingPoint i e\<close>: \<^verbatim>\<open>Error decoding point ${i}: ${error.message}\<close>
  \<^item> \<open>InsufficientPoints k len\<close>: \<^verbatim>\<open>Insufficient points: need ${k}, found ${points.length}\<close>
\<close>

datatype error =
    InvalidBase jsnum
  | InvalidValue string jsnum
  | NeedAtLeast int nat
  | MissingKeys
  | DecodingPoint int error
  | InsufficientPoints int nat

subsection \<open>baseToDecimal\<close>

definition baseToDecimal :: "engine \<Rightarrow> string \<Rightarrow> jsnum \<Rightarrow> error + jsnum" where
  "baseToDecimal engine val base =
     (if js_less base (Fin 2) \<or> js_less (Fin 36) base then Inl (InvalidBase base)
      else let result = parseInt engine val base
           in if result = NaN then Inl (InvalidValue val base) else Inr result)"

subsection \<open>lagrangeInterpolation\<close>

type_synonym point = "jsnum \<times> jsnum"

text \<open>\<^verbatim>\<open>points.slice(0, k)\<close>: a negative end counts from the end of the array.\<close>

definition slice0 :: "'a list \<Rightarrow> int \<Rightarrow> 'a list" where
  "slice0 xs k =
     (let len = int (length xs);
          final = (if k < 0 then max (len + k) 0 else min k len)
      in take (nat final) xs)"

text \<open>
  The inner loop: the Lagrange basis polynomial of the \<open>i\<close>-th selected point at the abscissa
  \<open>t\<close>, \<^verbatim>\<open>li *= (t - xj) / (xi - xj)\<close> for each \<open>j \<noteq> i\<close> in turn, from \<^verbatim>\<open>li = 1\<close>. The source
  writes the loop twice, with \<^verbatim>\<open>0\<close> for \<open>t\<close> in \<^verbatim>\<open>lagrangeInterpolation\<close> and with
  \<^verbatim>\<open>testX\<close> in \<^verbatim>\<open>validateSolution\<close>.
\<close>

definition basisAt :: "jsnum \<Rightarrow> point list \<Rightarrow> nat \<Rightarrow> jsnum" where
  "basisAt t selectedPoints i =
     foldl (\<lambda>li j. if i \<noteq> j
                    then js_mul li (js_div (js_sub t (fst (selectedPoints ! j)))
                                           (js_sub (fst (selectedPoints ! i)) (fst (selectedPoints ! j))))
                    else li)
       (Fin 1) [0..<length selectedPoints]"

text \<open>The outer loop: \<^verbatim>\<open>sum += yi * li\<close> for each selected point in turn, from \<^verbatim>\<open>0\<close>.\<close>

definition interpolateAt :: "jsnum \<Rightarrow> point list \<Rightarrow> jsnum" where
  "interpolateAt t selectedPoints =
     foldl (\<lambda>acc i. js_add acc (js_mul (snd (selectedPoints ! i)) (basisAt t selectedPoints i)))
       (Fin 0) [0..<length selectedPoints]"

definition lagrangeInterpolation :: "point list \<Rightarrow> int \<Rightarrow> error + jsnum" where
  "lagrangeInterpolation pts k =
     (if int (length pts) < k then Inl (NeedAtLeast k (length pts))
      else Inr (js_round (interpolateAt (Fin 0) (slice0 pts k))))"

subsection \<open>validateSolution\<close>

record validationResult =
  point :: point
  calculated :: jsnum
  difference :: jsnum
  valid :: bool

record validationReport =
  isValid :: bool
  results :: "validationResult list"
  tolerance :: jsnum

text \<open>The literal \<^verbatim>\<open>1e-10\<close> is the double nearest to \<open>10 ^ -10\<close>.\<close>

definition validateSolution :: "point list \<Rightarrow> jsnum \<Rightarrow> int \<Rightarrow> validationReport" where
  "validateSolution pts sec k =
     (let selectedPoints = slice0 pts k;
          tol = fl (1 / 10 ^ 10);
          validationResults =
            map (\<lambda>(testX, testY).
                   let calculatedY = interpolateAt testX selectedPoints;
                       diff = js_abs (js_sub calculatedY testY)
                   in \<lparr>point = (testX, testY), calculated = calculatedY,
                       difference = diff, valid = js_le diff tol\<rparr>) pts
      in \<lparr>isValid = list_all valid validationResults,
          results = validationResults, tolerance = tol\<rparr>)"

subsection \<open>parseTestCase\<close>

text \<open>
  A test case is the object the input shape describes: \<^verbatim>\<open>keys\<close>, if present, with \<^verbatim>\<open>n\<close>
  and \<^verbatim>\<open>k\<close>, each an integer if present, and share objects \<^verbatim>\<open>{base, value}\<close> of two
  strings under string keys.
\<close>

record keysObject =
  keys_n :: "int option"
  keys_k :: "int option"

record share =
  share_base :: string
  share_value :: string

record testCase =
  keys :: "keysObject option"
  shares :: "string \<rightharpoonup> share"

text \<open>
  The loop \<^verbatim>\<open>for (let i = 1; i <= n; i++)\<close>, over the list of the values \<open>i\<close> takes; the
  first share that does not decode ends it with the error. The counter is an integer of the
  model, as it is in the source below \<open>2 ^ 53\<close>.
\<close>

fun decodeShares ::
  "engine \<Rightarrow> (string \<rightharpoonup> share) \<Rightarrow> int list \<Rightarrow> point list \<Rightarrow> error + point list" where
  "decodeShares engine sh [] pts = Inr pts"
| "decodeShares engine sh (i # is) pts =
     (case sh (toString i) of
        None \<Rightarrow> decodeShares engine sh is pts
      | Some entry \<Rightarrow>
          (let base = parseInt engine (share_base entry) NaN
           in case baseToDecimal engine (share_value entry) base of
                Inl e \<Rightarrow> Inl (DecodingPoint i e)
              | Inr y \<Rightarrow> decodeShares engine sh is (pts @ [(fl (of_int i), y)])))"

text \<open>
  \<^verbatim>\<open>!keys.n\<close> holds of a missing \<^verbatim>\<open>n\<close> and of \<^verbatim>\<open>0\<close>; past that guard both keys
  are present, so the last branch of \<open>parseTestCase\<close> below is never taken.
\<close>

definition falsy :: "int option \<Rightarrow> bool" where
  "falsy v = (case v of None \<Rightarrow> True | Some i \<Rightarrow> i = 0)"

definition parseTestCase :: "engine \<Rightarrow> testCase \<Rightarrow> error + (point list \<times> int \<times> int)" where
  "parseTestCase engine tc =
     (case keys tc of
        None \<Rightarrow> Inl MissingKeys
      | Some ks \<Rightarrow>
          if falsy (keys_n ks) \<or> falsy (keys_k ks) then Inl MissingKeys
          else (case (keys_n ks, keys_k ks) of
                  (Some n, Some k) \<Rightarrow>
                    (case decodeShares engine (shares tc) [1..n] [] of
                       Inl e \<Rightarrow> Inl e
                     | Inr pts \<Rightarrow>
                         (if int (length pts) < k then Inl (InsufficientPoints k (length pts))
                          else Inr (pts, n, k)))
                | _ \<Rightarrow> Inl MissingKeys))"

subsection \<open>solve and solveMultiple\<close>

record parametersObject =
  param_n :: int
  param_k :: int
  degree :: int

record solution =
  success :: bool
  secret :: "jsnum option"
  points :: "point list option"
  parameters :: "parametersObject option"
  validation :: "validationReport option"
  error :: "error option"

text \<open>What the \<^verbatim>\<open>catch\<close> block of \<^verbatim>\<open>solve\<close> returns.\<close>

definition failure :: "error \<Rightarrow> solution" where
  "failure e =
     \<lparr>success = False, secret = None, points = None, parameters = None,
      validation = None, error = Some e\<rparr>"

text \<open>
  In the success record \<open>degree\<close> is \<open>k - 1\<close> over the integers, as the subtraction of Numbers
  is for \<open>\<bar>k\<bar> \<le> 2 ^ 53\<close>.
\<close>

definition solve :: "engine \<Rightarrow> testCase \<Rightarrow> solution" where
  "solve engine tc =
     (case parseTestCase engine tc of
        Inl e \<Rightarrow> failure e
      | Inr (pts, n, k) \<Rightarrow>
          (case lagrangeInterpolation pts k of
             Inl e \<Rightarrow> failure e
           | Inr sec \<Rightarrow>
               \<lparr>success = True, secret = Some sec, points = Some pts,
                parameters = Some \<lparr>param_n = n, param_k = k, degree = k - 1\<rparr>,
                validation = Some (validateSolution pts sec k), error = None\<rparr>))"

text \<open>Each result is paired with \<^verbatim>\<open>testCaseIndex\<close>, the position of its test case.\<close>

definition solveMultiple :: "engine \<Rightarrow> testCase list \<Rightarrow> (nat \<times> solution) list" where
  "solveMultiple engine testCases =
     map (\<lambda>(index, tc). (index, solve engine tc)) (enumerate 0 testCases)"

subsection \<open>The example of the source\<close>

definition exampleTestCase1 :: testCase where
  "exampleTestCase1 =
     \<lparr>keys = Some \<lparr>keys_n = Some 4, keys_k = Some 3\<rparr>,
      shares = [''1'' \<mapsto> \<lparr>share_base = ''10'', share_value = ''4''\<rparr>,
                ''2'' \<mapsto> \<lparr>share_base = ''2'', share_value = ''111''\<rparr>,
                ''3'' \<mapsto> \<lparr>share_base = ''10'', share_value = ''12''\<rparr>,
                ''6'' \<mapsto> \<lparr>share_base = ''4'', share_value = ''213''\<rparr>]\<rparr>"

subsection \<open>Notions the claims use\<close>


text \<open>A number that \<^verbatim>\<open>Math.round\<close> can return: an integer, a zero, an infinity or \<open>NaN\<close>.\<close>

definition js_whole :: "jsnum \<Rightarrow> bool" where
  "js_whole a = (case a of Fin r \<Rightarrow> of_int \<lfloor>r\<rfloor> = r | _ \<Rightarrow> True)"

section \<open>Rounding: the doubles are its fixed points\<close>

lemma round_even_of_int: "round_even (of_int n) = n"
  by (simp add: round_even_def)

lemma floorlog2_eq: "0 < L \<Longrightarrow> 2 ^ (L - 1) \<le> n \<Longrightarrow> n < 2 ^ L \<Longrightarrow> floorlog 2 n = L"
proof -
  assume L: "0 < L" and lo: "2 ^ (L - 1) \<le> n" and hi: "n < 2 ^ L"
  have "floorlog 2 n \<le> L" using hi by (simp add: floorlog_leI)
  moreover have "L \<le> floorlog 2 n" using lo by (simp add: floorlog_geI)
  ultimately show ?thesis by simp
qed

lemma rtf_uminus: "r \<noteq> 0 \<Longrightarrow> round_to_format p w m (- r) = js_uminus (round_to_format p w m r)"
  by (auto simp: round_to_format_def Let_def mk_inf_def mk_zero_def)

lemma rtf_exact_pos:
  assumes k: "0 < k" "k < 2 ^ p" and t: "p + t \<le> m + w"
  shows "round_to_format p w m (of_int k * 2 ^ t / 2 ^ w) = Fin (of_int k * 2 ^ t / 2 ^ w)"
proof -
  let ?r = "of_int k * 2 ^ t / 2 ^ w :: rat"
  have rpos: "0 < ?r" using k by simp
  have x: "\<bar>?r\<bar> * 2 ^ w = of_int (k * 2 ^ t)" using k by simp
  have "nat (k * 2 ^ t) = nat k * 2 ^ t"
    using k by (simp add: nat_mult_distrib nat_power_eq)
  then have fx: "nat \<lfloor>(of_int (k * 2 ^ t) :: rat)\<rfloor> = nat k * 2 ^ t"
    by (simp only: floor_of_int)
  have "nat k * 2 ^ t < 2 ^ (p + t)"
  proof -
    have "nat k < 2 ^ p" using k by (simp add: nat_less_iff)
    then show ?thesis by (simp add: power_add)
  qed
  then have "floorlog 2 (nat k * 2 ^ t) \<le> p + t" by (simp add: floorlog_leI)
  then have s: "floorlog 2 (nat k * 2 ^ t) - p \<le> t" by simp
  define s where "s = floorlog 2 (nat k * 2 ^ t) - p"
  have st: "s \<le> t" using s by (simp add: s_def)
  have pw: "(2::rat) ^ t = 2 ^ (t - s) * 2 ^ s" using st by (simp flip: power_add)
  have q: "of_int (k * 2 ^ t) / 2 ^ s = (of_int (k * 2 ^ (t - s)) :: rat)"
    using pw by simp
  have v: "of_int (round_even (of_int (k * 2 ^ t) / 2 ^ s)) * 2 ^ s / 2 ^ w = ?r"
    unfolding q round_even_of_int using pw by simp
  have lt: "?r < 2 ^ m"
  proof -
    have "of_int k * 2 ^ t < (2 ^ p * 2 ^ t :: rat)"
    proof -
      have "(of_int k :: rat) < of_int (2 ^ p)" using k(2) by (simp only: of_int_less_iff)
      then show ?thesis by simp
    qed
    also have "\<dots> \<le> 2 ^ m * 2 ^ w" using t by (simp flip: power_add)
    finally show ?thesis by (simp add: divide_less_eq)
  qed
  have ne: "?r \<noteq> 0" using k by simp
  have "0 \<le> ?r" using rpos by (rule less_imp_le)
  then have nn: "\<not> ?r < 0" by (simp only: not_less)
  have nl: "\<not> 2 ^ m \<le> ?r" using lt by (simp only: not_le)
  show ?thesis
    unfolding round_to_format_def Let_def x fx s_def[symmetric] v
    using ne nn nl by (simp only: if_False)
qed

lemma fl_uminus: "r \<noteq> 0 \<Longrightarrow> fl (- r) = js_uminus (fl r)"
  unfolding fl_def by (rule rtf_uminus)

lemma fl_zero: "fl 0 = Fin 0"
  by (simp add: fl_def round_to_format_def)

lemma fl_exact_pos:
  assumes "0 < k" "k < 2 ^ 53" "t \<le> 2045"
  shows "fl (of_int k * 2 ^ t / 2 ^ 1074) = Fin (of_int k * 2 ^ t / 2 ^ 1074)"
proof -
  have "53 + t \<le> 1024 + 1074" using assms(3) by simp
  from rtf_exact_pos[OF assms(1) assms(2) this] show ?thesis by (simp only: fl_def)
qed
lemma fl_of_int: "\<bar>z\<bar> \<le> 2 ^ 53 \<Longrightarrow> fl (of_int z) = Fin (of_int z)"
proof -
  assume b: "\<bar>z\<bar> \<le> 2 ^ 53"
  have pos: "fl (of_int y) = Fin (of_int y)" if y: "0 < y" "y \<le> 2 ^ 53" for y :: int
  proof (cases "y = 2 ^ 53")
    case True
    have "fl (of_int 1 * 2 ^ 1127 / 2 ^ 1074) = Fin (of_int 1 * 2 ^ 1127 / 2 ^ 1074)"
      by (rule fl_exact_pos) simp_all
    moreover have "(of_int 1 * 2 ^ 1127 / 2 ^ 1074 :: rat) = 2 ^ 53" by simp
    ultimately show ?thesis using True by simp
  next
    case False
    then have "y < 2 ^ 53" using y by simp
    then have "fl (of_int y * 2 ^ 1074 / 2 ^ 1074) = Fin (of_int y * 2 ^ 1074 / 2 ^ 1074)"
      using y by (intro fl_exact_pos) simp_all
    then show ?thesis by simp
  qed
  consider "z = 0" | "0 < z" | "z < 0" by linarith
  then show ?thesis
  proof cases
    case 1 then show ?thesis by (simp add: fl_zero)
  next
    case 2 then show ?thesis using pos b by simp
  next
    case 3
    then have "fl (of_int (- z)) = Fin (of_int (- z))" using pos[of "- z"] b by simp
    then have "fl (- of_int z) = Fin (- of_int z)" by simp
    moreover have "fl (- (- of_int z)) = js_uminus (fl (- of_int z))"
      using 3 by (intro fl_uminus) simp
    ultimately show ?thesis using 3 by simp
  qed
qed

lemma fl_dyadic:
  assumes "\<bar>z\<bar> < 2 ^ 53" "j \<le> 1074"
  shows "fl (of_int z / 2 ^ j) = Fin (of_int z / 2 ^ j)"
proof -
  have pw: "(2::rat) ^ 1074 = 2 ^ (1074 - j) * 2 ^ j"
    using assms(2) by (simp only: power_add[symmetric] le_add_diff_inverse2)
  have pos: "fl (of_int y / 2 ^ j) = Fin (of_int y / 2 ^ j)" if y: "0 < y" "y < 2 ^ 53" for y :: int
  proof -
    have "fl (of_int y * 2 ^ (1074 - j) / 2 ^ 1074) = Fin (of_int y * 2 ^ (1074 - j) / 2 ^ 1074)"
      using y by (intro fl_exact_pos) simp_all
    moreover have "(of_int y * 2 ^ (1074 - j) / 2 ^ 1074 :: rat) = of_int y / 2 ^ j"
      by (simp only: pw) simp
    ultimately show ?thesis by (simp only:)
  qed
  consider "z = 0" | "0 < z" | "z < 0" by linarith
  then show ?thesis
  proof cases
    case 1 then show ?thesis by (simp add: fl_zero)
  next
    case 2 then show ?thesis using pos assms by simp
  next
    case 3
    then have e: "fl (of_int (- z) / 2 ^ j) = Fin (of_int (- z) / 2 ^ j)" using pos[of "- z"] assms by simp
    have "fl (- (of_int (- z) / 2 ^ j)) = js_uminus (fl (of_int (- z) / 2 ^ j))"
      using 3 by (intro fl_uminus) simp
    then show ?thesis using 3 e by simp
  qed
qed

lemma fl_numeral: "numeral w \<le> (9007199254740992::int) \<Longrightarrow> fl (numeral w) = Fin (numeral w)"
  using fl_of_int[of "numeral w"] by simp

lemma fl_neg_numeral: "numeral w \<le> (9007199254740992::int) \<Longrightarrow> fl (- numeral w) = Fin (- numeral w)"
  using fl_of_int[of "- numeral w"] by simp

lemma fl_one: "fl 1 = Fin 1"
  using fl_of_int[of 1] by simp

lemma fl_neg_one: "fl (- 1) = Fin (- 1)"
  using fl_of_int[of "- 1"] by simp

lemma fl_half_numeral: "numeral w < (9007199254740992::int) \<Longrightarrow> fl (numeral w / 2) = Fin (numeral w / 2)"
  using fl_dyadic[of "numeral w" 1] by simp

lemma fl_neg_half_numeral: "numeral w < (9007199254740992::int) \<Longrightarrow> fl (- (numeral w / 2)) = Fin (- (numeral w / 2))"
  using fl_dyadic[of "- numeral w" 1] by simp

lemma fl_half: "fl (1 / 2) = Fin (1 / 2)"
  using fl_dyadic[of 1 1] by simp

lemma fl_neg_half: "fl (- (1 / 2)) = Fin (- (1 / 2))"
  using fl_dyadic[of "- 1" 1] by simp

lemma floor_rat_divide: "\<lfloor>numeral a / numeral b :: rat\<rfloor> = numeral a div numeral b"
  by (metis floor_divide_of_int_eq of_int_numeral)

lemma floor_rat_minus_divide: "\<lfloor>- (numeral a / numeral b) :: rat\<rfloor> = - numeral a div numeral b"
  by (metis divide_minus_left floor_divide_of_int_eq of_int_neg_numeral of_int_numeral)

lemma floor_rat_one_divide: "\<lfloor>1 / numeral b :: rat\<rfloor> = 1 div numeral b"
  by (metis floor_divide_of_int_eq of_int_1 of_int_numeral)

lemma floor_rat_minus_one_divide: "\<lfloor>- (1 / numeral b) :: rat\<rfloor> = - 1 div numeral b"
  by (metis divide_minus_left floor_divide_of_int_eq of_int_1 of_int_minus of_int_numeral)

lemmas floor_evals = floor_rat_divide floor_rat_minus_divide floor_rat_one_divide floor_rat_minus_one_divide

lemmas fl_evals = floor_evals fl_zero fl_numeral fl_neg_numeral fl_one fl_neg_one fl_half_numeral
  fl_neg_half_numeral fl_half fl_neg_half

lemmas js_ops = Let_def js_sub_def js_mul_def js_div_def js_zero_def js_inf_def mk_zero_def mk_inf_def

lemma upt3: "[0..<3] = [0, 1, 2]"
  by code_simp

lemma upt2: "[0..<2] = [0, 1]"
  by code_simp



lemma rtf_round_pos:
  assumes L: "0 < L" and lo: "2 ^ (L - 1) \<le> r * 2 ^ w" and hi: "r * 2 ^ w < 2 ^ L"
  shows "round_to_format p w m r =
     (let v = of_int (round_even (r * 2 ^ w / 2 ^ (L - p))) * 2 ^ (L - p) / 2 ^ w
      in if 2 ^ m \<le> v then PInf else if v = 0 then Fin 0 else Fin v)"
proof -
  let ?n = "nat \<lfloor>r * 2 ^ w\<rfloor>"
  have x: "0 < r * 2 ^ w"
    using lo by (rule less_le_trans[rotated]) simp
  then have r: "0 < r" by (simp add: zero_less_mult_iff)
  have "(2::int) ^ (L - 1) \<le> \<lfloor>r * 2 ^ w\<rfloor>" using lo by (simp add: le_floor_iff)
  then have "int (2 ^ (L - 1)) \<le> int ?n" using x by simp
  then have a: "2 ^ (L - 1) \<le> ?n" by (simp only: of_nat_le_iff)
  have "\<lfloor>r * 2 ^ w\<rfloor> < (2::int) ^ L" using hi by (simp add: floor_less_iff)
  then have "int ?n < int (2 ^ L)" using x by simp
  then have b: "?n < 2 ^ L" by (simp only: of_nat_less_iff)
  have "floorlog 2 ?n = L" using L a b by (rule floorlog2_eq)
  then show ?thesis using r by (simp add: round_to_format_def Let_def mk_inf_def mk_zero_def)
qed

lemma fl_round_pos:
  assumes "0 < L" "2 ^ (L - 1) \<le> r * 2 ^ 1074" "r * 2 ^ 1074 < 2 ^ L"
  shows "fl r =
     (let v = of_int (round_even (r * 2 ^ 1074 / 2 ^ (L - 53))) * 2 ^ (L - 53) / 2 ^ 1074
      in if 2 ^ 1024 \<le> v then PInf else if v = 0 then Fin 0 else Fin v)"
  unfolding fl_def using assms by (rule rtf_round_pos)


lemma tolerance_value: "fl (1 / 10 ^ 10) = Fin (7737125245533627 / 2 ^ 86)"
  using fl_round_pos[of 1041 "1 / 10 ^ 10"]
  by (simp add: round_even_def Let_def floor_evals)

section \<open>Decoding\<close>

lemmas parse_evals = parseInt_def approximable_def significant_def to_int32_def is_white_def
  radix_digit_def digitVal_def mathInt_def












text \<open>
  C3. \<open>baseToDecimal\<close> rejects a value only when \<^verbatim>\<open>parseInt\<close> finds no digit at its start
  (the last conjunct). A character that is not a digit after the first digit ends the number
  and is ignored with everything behind it, and white space before the number is skipped: the
  first three values are decoded, where the claim has an \<open>InvalidDigitError\<close>.
\<close>

theorem decode_accepts_malformed_values:
  "baseToDecimal engine ''1z'' (Fin 10) = Inr (Fin 1)
   \<and> baseToDecimal engine ''12 34'' (Fin 10) = Inr (Fin 12)
   \<and> baseToDecimal engine '' 12 '' (Fin 10) = Inr (Fin 12)
   \<and> baseToDecimal engine ''z1'' (Fin 10) = Inl (InvalidValue ''z1'' (Fin 10))"
  by (simp add: baseToDecimal_def parse_evals js_ops fl_evals)

section \<open>Reconstruction with one point\<close>

lemma slice0_one: "slice0 (p # ps) 1 = [p]"
  by (simp add: slice0_def)

lemma basisAt_single: "basisAt t [p] 0 = Fin 1"
  by (simp add: basisAt_def)

lemma interpolateAt_single: "interpolateAt t [(x, y)] = js_add (Fin 0) (js_mul y (Fin 1))"
  by (simp add: interpolateAt_def basisAt_single)

lemma js_integer_cases:
  assumes "js_integer y"
  obtains "y = NZero" | z where "y = Fin (of_int z)" "fl (of_int z) = Fin (of_int z)"
  using assms by (auto simp: js_integer_def split: jsnum.splits)

lemma floor_add_half: "\<lfloor>(of_int z :: rat) + 1 / 2\<rfloor> = z"
  by (rule floor_unique) simp_all

lemma js_round_int: "js_round (Fin (of_int z)) = Fin (of_int z)"
  by (simp add: floor_add_half mk_zero_def)

text \<open>
  C7. With \<open>k = 1\<close> and at least one point, \<open>lagrangeInterpolation\<close> returns the \<open>y\<close> of the
  first point, for every integer \<open>y\<close>: the basis polynomial is the empty product 1, the sum is
  \<open>0 + y * 1\<close>, and rounding an integer changes nothing. The number returned is \<open>y\<close> itself,
  except that \<open>-0\<close> comes back as \<open>+0\<close>, which is the same number under \<^verbatim>\<open>===\<close>.
\<close>

theorem threshold_one_returns_first_y:
  assumes "js_integer y"
  shows "lagrangeInterpolation ((x, y) # ps) 1 = Inr (if y = NZero then Fin 0 else y)
       \<and> js_eq (if y = NZero then Fin 0 else y) y"
  using assms
proof (cases rule: js_integer_cases)
  case 1
  then show ?thesis
    by (simp add: lagrangeInterpolation_def slice0_one interpolateAt_single js_mul_def js_zero_def
        js_inf_def mk_zero_def js_eq_def Let_def floor_evals)
next
  case (2 z)
  show ?thesis
  proof (cases "z = 0")
    case True
    then show ?thesis using 2
      by (simp add: lagrangeInterpolation_def slice0_one interpolateAt_single js_mul_def js_zero_def
        js_inf_def mk_zero_def js_eq_def fl_zero Let_def floor_evals)
  next
    case False
    then show ?thesis using 2
      by (simp add: lagrangeInterpolation_def slice0_one interpolateAt_single js_mul_def js_zero_def
        js_inf_def mk_zero_def js_eq_def Let_def floor_evals js_round_int)
  qed
qed

theorem threshold_one_returns_first_y_witness:
  "js_integer (Fin 5)
   \<and> lagrangeInterpolation [(Fin 1, Fin 5), (Fin 2, Fin 9)] 1 = Inr (Fin 5)
   \<and> js_eq (Fin 5) (Fin 5)"
proof -
  have h: "js_integer (Fin 5)" by (simp add: js_integer_def fl_evals)
  show ?thesis using h threshold_one_returns_first_y [OF h, of "Fin 1" "[(Fin 2, Fin 9)]"] by simp
qed

section \<open>Reconstruction: rounding and division by zero\<close>

lemmas interp_evals = lagrangeInterpolation_def interpolateAt_def basisAt_def slice0_def upt2 upt3

lemma js_whole_round: "js_whole (js_round a)"
  by (cases a) (simp_all add: js_whole_def Let_def mk_zero_def)

text \<open>
  C5, as stated, fails. The points \<open>(1, 1)\<close> and \<open>(3, 2)\<close> lie on \<open>1 + (x - 1) / 2\<close>, whose
  value at 0 is \<open>1 / 2\<close>; the loop computes exactly that sum, and \<open>lagrangeInterpolation\<close>
  returns 1, rounded, with no error.
\<close>

theorem non_integer_sum_is_rounded_counterexample:
  "interpolateAt (Fin 0) [(Fin 1, Fin 1), (Fin 3, Fin 2)] = Fin (1 / 2)
   \<and> lagrangeInterpolation [(Fin 1, Fin 1), (Fin 3, Fin 2)] 2 = Inr (Fin 1)"
  by (simp add: interp_evals js_ops fl_evals)

text \<open>
  C5, amended. \<open>lagrangeInterpolation\<close> has one error, too few points. With at least \<open>k\<close>
  points it returns \<^verbatim>\<open>Math.round\<close> of the sum of the loop, whatever the sum is: the result is
  always an integer, a zero, an infinity or \<open>NaN\<close>, and a sum that is not an integer is
  rounded to the nearest integer without a report.
\<close>

theorem reconstruction_rounds_without_report:
  "(\<forall>e. lagrangeInterpolation pts k = Inl e \<longrightarrow> e = NeedAtLeast k (length pts) \<and> int (length pts) < k)
   \<and> (\<not> int (length pts) < k \<longrightarrow>
        (\<exists>v. lagrangeInterpolation pts k = Inr v \<and> js_whole v
             \<and> v = js_round (interpolateAt (Fin 0) (slice0 pts k))))"
  by (simp add: lagrangeInterpolation_def js_whole_round)

theorem reconstruction_rounds_without_report_witness:
  "\<not> int (length [(Fin 1, Fin 1), (Fin 3, Fin 2)]) < 2
   \<and> (\<exists>v. lagrangeInterpolation [(Fin 1, Fin 1), (Fin 3, Fin 2)] 2 = Inr v \<and> js_whole v
             \<and> v = js_round (interpolateAt (Fin 0) (slice0 [(Fin 1, Fin 1), (Fin 3, Fin 2)] 2)))"
  using reconstruction_rounds_without_report [of "[(Fin 1, Fin 1), (Fin 3, Fin 2)]" 2] by simp

text \<open>
  Two abscissas are the same when they are the same value or equal under \<^verbatim>\<open>===\<close> (\<open>+0\<close> and
  \<open>-0\<close> are); their difference is then a zero or \<open>NaN\<close>.
\<close>

lemma js_sub_same: "a = b \<or> js_eq a b \<Longrightarrow> js_zero (js_sub a b) \<or> js_sub a b = NaN"
  by (cases a; cases b) (auto simp: js_sub_def js_eq_def js_zero_def fl_zero)

lemma js_div_by_zero_or_nan: "js_zero b \<or> b = NaN \<Longrightarrow> js_nonfinite (js_div a b)"
  by (auto simp: js_div_def js_nonfinite_def js_inf_def js_zero_def mk_inf_def Let_def)

lemma js_mul_nonfinite_right: "js_nonfinite b \<Longrightarrow> js_nonfinite (js_mul a b)"
  by (auto simp: js_mul_def js_nonfinite_def js_inf_def js_zero_def mk_inf_def Let_def)

lemma js_mul_nonfinite_left: "js_nonfinite a \<Longrightarrow> js_nonfinite (js_mul a b)"
  by (auto simp: js_mul_def js_nonfinite_def js_inf_def js_zero_def mk_inf_def Let_def)

lemma js_add_nonfinite_right: "js_nonfinite b \<Longrightarrow> js_nonfinite (js_add a b)"
  by (cases a; cases b) (simp_all add: js_nonfinite_def)

lemma js_add_nonfinite_left: "js_nonfinite a \<Longrightarrow> js_nonfinite (js_add a b)"
  by (cases a; cases b) (simp_all add: js_nonfinite_def)

lemma js_round_nonfinite: "js_nonfinite a \<Longrightarrow> js_nonfinite (js_round a)"
  by (cases a) (simp_all add: js_nonfinite_def)

lemma foldl_absorbing:
  assumes keep: "\<And>a j. P a \<Longrightarrow> P (f a j)"
    and hit: "\<And>a. P (f a j0)"
    and mem: "j0 \<in> set js"
  shows "P (foldl f a js)"
proof -
  have stay: "P a \<Longrightarrow> P (foldl f a js)" for a js
    by (induction js arbitrary: a) (simp_all add: keep)
  from mem show ?thesis
  proof (induction js arbitrary: a)
    case Nil
    then show ?case by simp
  next
    case (Cons j js)
    show ?case
    proof (cases "j = j0")
      case True
      then show ?thesis using stay[of "f a j0" js] hit by simp
    next
      case False
      then show ?thesis using Cons by simp
    qed
  qed
qed

lemma basisAt_duplicate:
  assumes "i < length sel" "j < length sel" "i \<noteq> j"
    "fst (sel ! i) = fst (sel ! j) \<or> js_eq (fst (sel ! i)) (fst (sel ! j))"
  shows "js_nonfinite (basisAt t sel i)"
  unfolding basisAt_def
proof (rule foldl_absorbing[where ?j0.0 = j])
  show "j \<in> set [0..<length sel]" using assms(2) by simp
next
  fix a
  have "js_nonfinite (js_div (js_sub t (fst (sel ! j))) (js_sub (fst (sel ! i)) (fst (sel ! j))))"
    using assms(4) by (intro js_div_by_zero_or_nan js_sub_same)
  then show "js_nonfinite (if i \<noteq> j then js_mul a (js_div (js_sub t (fst (sel ! j))) (js_sub (fst (sel ! i)) (fst (sel ! j)))) else a)"
    using assms(3) by (simp add: js_mul_nonfinite_right)
next
  fix a j'
  assume "js_nonfinite a"
  then show "js_nonfinite (if i \<noteq> j' then js_mul a (js_div (js_sub t (fst (sel ! j'))) (js_sub (fst (sel ! i)) (fst (sel ! j')))) else a)"
    by (simp add: js_mul_nonfinite_left)
qed

lemma interpolateAt_duplicate:
  assumes "i < length sel" "j < length sel" "i \<noteq> j"
    "fst (sel ! i) = fst (sel ! j) \<or> js_eq (fst (sel ! i)) (fst (sel ! j))"
  shows "js_nonfinite (interpolateAt t sel)"
  unfolding interpolateAt_def
proof (rule foldl_absorbing[where ?j0.0 = i])
  show "i \<in> set [0..<length sel]" using assms(1) by simp
next
  fix a
  show "js_nonfinite (js_add a (js_mul (snd (sel ! i)) (basisAt t sel i)))"
    by (intro js_add_nonfinite_right js_mul_nonfinite_right basisAt_duplicate[OF assms])
next
  fix a i'
  assume "js_nonfinite a"
  then show "js_nonfinite (js_add a (js_mul (snd (sel ! i')) (basisAt t sel i')))"
    by (rule js_add_nonfinite_left)
qed

lemma slice0_take: "0 \<le> k \<Longrightarrow> k \<le> int (length xs) \<Longrightarrow> slice0 xs k = take (nat k) xs"
  by (simp add: slice0_def)

text \<open>
  C4, as stated, fails. The first two points share \<open>x = 1\<close>: each factor is \<open>-1 / 0\<close>, that is
  \<open>-\<infinity>\<close>, and \<open>lagrangeInterpolation\<close> returns \<open>-\<infinity>\<close> with no error.
\<close>

theorem duplicate_abscissa_counterexample:
  "lagrangeInterpolation [(Fin 1, Fin 2), (Fin 1, Fin 3)] 2 = Inr NInf"
  by (simp add: interp_evals js_ops fl_evals)

text \<open>
  C4, amended. \<open>lagrangeInterpolation\<close> does not look for equal abscissas. When two of the
  first \<open>k\<close> points share their \<open>x\<close> (the same value, or two values equal under \<^verbatim>\<open>===\<close>) and
  there are at least \<open>k\<close> points, the difference \<open>xi - xj\<close> is a zero or \<open>NaN\<close>, the quotient is
  an infinity or \<open>NaN\<close>, and that absorbs every later product and sum: the function returns,
  without an error, a value that is \<open>NaN\<close>, \<open>+\<infinity>\<close> or \<open>-\<infinity>\<close>.
\<close>

theorem duplicate_abscissa_gives_nonfinite:
  assumes "i < j" "int j < k" "k \<le> int (length pts)"
    "fst (pts ! i) = fst (pts ! j) \<or> js_eq (fst (pts ! i)) (fst (pts ! j))"
  shows "\<exists>v. lagrangeInterpolation pts k = Inr v \<and> js_nonfinite v"
proof -
  let ?sel = "slice0 pts k"
  have k0: "0 \<le> k" using assms(2) by simp
  have sel: "?sel = take (nat k) pts" using k0 assms(3) by (rule slice0_take)
  have len: "length ?sel = nat k" using assms(3) k0 by (simp add: sel)
  have j: "j < length ?sel" using assms(2) by (simp add: len)
  then have i: "i < length ?sel" using assms(1) by simp
  have "fst (?sel ! i) = fst (?sel ! j) \<or> js_eq (fst (?sel ! i)) (fst (?sel ! j))"
    using i j assms(4) len by (simp add: sel)
  then have "js_nonfinite (interpolateAt (Fin 0) ?sel)"
    using i j assms(1) by (intro interpolateAt_duplicate[of i _ j]) simp_all
  then have "js_nonfinite (js_round (interpolateAt (Fin 0) ?sel))" by (rule js_round_nonfinite)
  then show ?thesis using assms(3) by (simp add: lagrangeInterpolation_def)
qed

theorem duplicate_abscissa_gives_nonfinite_witness:
  "(0::nat) < 1 \<and> int 1 < 2 \<and> 2 \<le> int (length [(Fin 2, Fin 5), (Fin 2, Fin 7), (Fin 3, Fin 1)])
   \<and> fst ([(Fin 2, Fin 5), (Fin 2, Fin 7), (Fin 3, Fin 1)] ! 0)
       = fst ([(Fin 2, Fin 5), (Fin 2, Fin 7), (Fin 3, Fin 1)] ! 1)
   \<and> (\<exists>v. lagrangeInterpolation [(Fin 2, Fin 5), (Fin 2, Fin 7), (Fin 3, Fin 1)] 2 = Inr v
          \<and> js_nonfinite v)
   \<and> 2 \<le> int (length [(Fin 0, Fin 1), (NZero, Fin 2)])
   \<and> js_eq (fst ([(Fin 0, Fin 1), (NZero, Fin 2)] ! 0)) (fst ([(Fin 0, Fin 1), (NZero, Fin 2)] ! 1))
   \<and> (\<exists>v. lagrangeInterpolation [(Fin 0, Fin 1), (NZero, Fin 2)] 2 = Inr v \<and> js_nonfinite v)"
  using duplicate_abscissa_gives_nonfinite [of 0 1 2 "[(Fin 2, Fin 5), (Fin 2, Fin 7), (Fin 3, Fin 1)]"]
    duplicate_abscissa_gives_nonfinite [of 0 1 2 "[(Fin 0, Fin 1), (NZero, Fin 2)]"]
  by (simp add: js_eq_def js_zero_def)

section \<open>Validation\<close>

text \<open>
  C9. The report of \<open>validateSolution\<close> does not depend on its \<open>secret\<close> argument: it
  interpolates again from the first \<open>k\<close> points and never reads the secret. (The tolerance is
  the constant \<^verbatim>\<open>1e-10\<close> of the function, not a setting.)
\<close>

theorem validation_ignores_secret:
  "validateSolution pts secret1 k = validateSolution pts secret2 k"
  by (simp add: validateSolution_def)

section \<open>The example of the source, end to end\<close>

lemma tolerance_numeral: "fl (1 / 10000000000) = Fin (7737125245533627 / 77371252455336267181195264)"
  using tolerance_value by simp

lemma toString_small: "toString 1 = ''1''" "toString 2 = ''2''" "toString 3 = ''3''" "toString 4 = ''4''"
  by (simp_all add: toString_def)

lemma upto_1_4: "[1..4::int] = [1, 2, 3, 4]"
  by code_simp

lemma upto_1_1: "[1..1::int] = [1]"
  by code_simp

lemma parse_example:
  "parseTestCase engine exampleTestCase1 = Inr ([(Fin 1, Fin 4), (Fin 2, Fin 7), (Fin 3, Fin 12)], 4, 3)"
  by (simp add: parseTestCase_def exampleTestCase1_def falsy_def upto_1_4 toString_small
      baseToDecimal_def parse_evals js_ops fl_evals)

lemma interpolate_example:
  "lagrangeInterpolation [(Fin 1, Fin 4), (Fin 2, Fin 7), (Fin 3, Fin 12)] 3 = Inr (Fin 3)"
  by (simp add: interp_evals js_ops fl_evals)

lemma validate_example:
  "validateSolution [(Fin 1, Fin 4), (Fin 2, Fin 7), (Fin 3, Fin 12)] (Fin 3) 3 =
     \<lparr>isValid = True,
      results = [\<lparr>point = (Fin 1, Fin 4), calculated = Fin 4, difference = Fin 0, valid = True\<rparr>,
                 \<lparr>point = (Fin 2, Fin 7), calculated = Fin 7, difference = Fin 0, valid = True\<rparr>,
                 \<lparr>point = (Fin 3, Fin 12), calculated = Fin 12, difference = Fin 0, valid = True\<rparr>],
      tolerance = fl (1 / 10 ^ 10)\<rparr>"
  by (simp add: validateSolution_def interp_evals js_ops fl_evals tolerance_numeral)

lemma solve_example_success: "success (solve engine exampleTestCase1)"
  by (simp add: solve_def parse_example interpolate_example)

text \<open>
  C1. On \<open>exampleTestCase1\<close> (\<open>n = 4\<close>, \<open>k = 3\<close>, shares under the keys 1, 2, 3 and 6)
  \<open>solve\<close> succeeds with the secret 3, as the claim says. Its points and its validation
  report have three entries, for \<open>(1, 4)\<close>, \<open>(2, 7)\<close> and \<open>(3, 12)\<close>: the loop of
  \<open>parseTestCase\<close> looks up the keys 1 to 4 only, so the share under the key 6 is never
  decoded and the report has no entry for \<open>(6, 39)\<close>, which the claim says it has.
\<close>

theorem example_report_has_three_entries:
  "solve engine exampleTestCase1 =
     \<lparr>success = True, secret = Some (Fin 3),
      points = Some [(Fin 1, Fin 4), (Fin 2, Fin 7), (Fin 3, Fin 12)],
      parameters = Some \<lparr>param_n = 4, param_k = 3, degree = 2\<rparr>,
      validation = Some
        \<lparr>isValid = True,
         results = [\<lparr>point = (Fin 1, Fin 4), calculated = Fin 4, difference = Fin 0, valid = True\<rparr>,
                    \<lparr>point = (Fin 2, Fin 7), calculated = Fin 7, difference = Fin 0, valid = True\<rparr>,
                    \<lparr>point = (Fin 3, Fin 12), calculated = Fin 12, difference = Fin 0, valid = True\<rparr>],
         tolerance = fl (1 / 10 ^ 10)\<rparr>,
      error = None\<rparr>"
  by (simp add: solve_def parse_example interpolate_example validate_example)

section \<open>Which shares are read\<close>

lemma decodeShares_points:
  "decodeShares engine sh js pts0 = Inr pts \<Longrightarrow> p \<in> set pts \<Longrightarrow>
     p \<in> set pts0 \<or> (\<exists>i\<in>set js. fst p = fl (of_int i) \<and> sh (toString i) \<noteq> None)"
proof (induction js arbitrary: pts0)
  case Nil
  then show ?case by simp
next
  case (Cons i js)
  show ?case
  proof (cases "sh (toString i)")
    case None
    then show ?thesis using Cons by auto
  next
    case (Some entry)
    then obtain y where
      y: "baseToDecimal engine (share_value entry) (parseInt engine (share_base entry) NaN) = Inr y"
      and rest: "decodeShares engine sh js (pts0 @ [(fl (of_int i), y)]) = Inr pts"
      using Cons.prems(1) by (auto simp: Let_def split: sum.splits)
    from Cons.IH[OF rest Cons.prems(2)] show ?thesis using Some by auto
  qed
qed

lemma decodeShares_cong:
  "(\<And>i. i \<in> set js \<Longrightarrow> sh (toString i) = sh' (toString i)) \<Longrightarrow>
     decodeShares engine sh js pts = decodeShares engine sh' js pts"
  by (induction js arbitrary: pts) (auto simp: Let_def split: option.splits sum.splits)

lemma upt10: "[0..<10] = [0, 1, 2, 3, 4, 5, 6, 7, 8, 9]"
  by code_simp

lemma digitVal_digit: "d < 10 \<Longrightarrow> digitVal (''0123456789'' ! d) = Some d"
proof -
  have "\<forall>d\<in>set [0..<10]. digitVal (''0123456789'' ! d) = Some d"
    unfolding upt10 by (simp add: digitVal_def)
  then show "d < 10 \<Longrightarrow> digitVal (''0123456789'' ! d) = Some d" by simp
qed

lemma mathInt_snoc:
  "mathInt R (Z @ [c]) = mathInt R Z * R + (case digitVal c of None \<Rightarrow> 0 | Some d \<Rightarrow> int d)"
  by (simp add: mathInt_def)

lemma mathInt_show_nat: "mathInt 10 (show_nat i) = int i"
proof (induction i rule: show_nat.induct)
  case (1 i)
  show ?case
  proof (cases "i < 10")
    case True
    then show ?thesis by (subst show_nat.simps) (simp add: mathInt_def digitVal_digit)
  next
    case False
    have "mathInt 10 (show_nat i) = mathInt 10 (show_nat (i div 10)) * 10 + int (i mod 10)"
      using False by (subst show_nat.simps) (simp add: mathInt_snoc digitVal_digit)
    also have "\<dots> = int (i div 10) * 10 + int (i mod 10)" using 1 False by simp
    also have "\<dots> = int i" by (simp add: zdiv_int zmod_int)
    finally show ?thesis .
  qed
qed

lemma show_nat_no_minus: "CHR ''-'' \<notin> set (show_nat i)"
proof (induction i rule: show_nat.induct)
  case (1 i)
  have d: "''0123456789'' ! d \<noteq> CHR ''-''" if "d < 10" for d
  proof -
    have "digitVal (''0123456789'' ! d) = Some d" using that by (rule digitVal_digit)
    moreover have "digitVal CHR ''-'' = None" by (simp add: digitVal_def)
    ultimately show ?thesis by auto
  qed
  show ?case
  proof (cases "i < 10")
    case True
    then show ?thesis using d[of i] by (subst show_nat.simps) auto
  next
    case False
    then show ?thesis using 1 d[of "i mod 10"] by (subst show_nat.simps) auto
  qed
qed

lemma toString_inj: "toString i = toString j \<Longrightarrow> i = j"
proof -
  assume e: "toString i = toString j"
  have neg: "toString a \<noteq> toString b" if "a < 0" "0 \<le> b" for a b
  proof
    assume "toString a = toString b"
    then have "CHR ''-'' # show_nat (nat (- a)) = show_nat (nat b)" using that by (simp add: toString_def)
    then have "CHR ''-'' \<in> set (show_nat (nat b))" by (metis list.set_intros(1))
    then show False using show_nat_no_minus by simp
  qed
  consider "i < 0" "j < 0" | "i < 0" "0 \<le> j" | "0 \<le> i" "j < 0" | "0 \<le> i" "0 \<le> j" by linarith
  then show ?thesis
  proof cases
    case 1
    then have "show_nat (nat (- i)) = show_nat (nat (- j))" using e by (simp add: toString_def)
    then have "int (nat (- i)) = int (nat (- j))" by (metis mathInt_show_nat)
    then show ?thesis using 1 by simp
  next
    case 2 then show ?thesis using neg e by blast
  next
    case 3 then show ?thesis using neg[of j i] e by simp
  next
    case 4
    then have "show_nat (nat i) = show_nat (nat j)" using e by (simp add: toString_def)
    then have "int (nat i) = int (nat j)" by (metis mathInt_show_nat)
    then show ?thesis using 4 by simp
  qed
qed

lemma parseTestCase_points:
  assumes "parseTestCase engine tc = Inr (pts, n, k)" "p \<in> set pts"
  shows "\<exists>i. 1 \<le> i \<and> i \<le> n \<and> fst p = fl (of_int i) \<and> shares tc (toString i) \<noteq> None"
proof -
  obtain ks where ks: "keys tc = Some ks" "keys_n ks = Some n"
    and d: "decodeShares engine (shares tc) [1..n] [] = Inr pts"
    using assms(1)
    by (auto simp: parseTestCase_def Let_def split: option.splits sum.splits if_splits)
  from decodeShares_points[OF d assms(2)] show ?thesis by auto
qed

lemma parseTestCase_outside:
  assumes "keys tc = Some ks" "keys_n ks = Some n" "j < 1 \<or> n < j"
  shows "parseTestCase engine (tc\<lparr>shares := (shares tc)(toString j := e)\<rparr>) = parseTestCase engine tc"
proof -
  have "decodeShares engine ((shares tc)(toString j := e)) [1..n] [] = decodeShares engine (shares tc) [1..n] []"
  proof (rule decodeShares_cong)
    fix i assume "i \<in> set [1..n]"
    then have "i \<noteq> j" using assms(3) by auto
    then have "toString i \<noteq> toString j" using toString_inj by blast
    then show "((shares tc)(toString j := e)) (toString i) = shares tc (toString i)" by simp
  qed
  then show ?thesis using assms(1,2) by (simp add: parseTestCase_def split: option.splits)
qed

text \<open>
  C8. \<open>parseTestCase\<close> reads the string keys \<open>1\<close> to \<open>keys.n\<close> and no other. Every point it
  returns has for \<open>x\<close> an index \<open>i\<close> with \<open>1 \<le> i \<le> n\<close> under whose key a share is present; and
  adding, changing or removing the entry under the key of any index below 1 or above \<open>n\<close>
  changes neither the result of \<open>parseTestCase\<close> nor that of \<open>solve\<close>, so such a share is
  neither decoded, nor a point, nor validated.
\<close>

theorem shares_beyond_n_are_ignored:
  "(\<forall>pts n k. parseTestCase engine tc = Inr (pts, n, k) \<longrightarrow>
      (\<forall>p\<in>set pts. \<exists>i. 1 \<le> i \<and> i \<le> n \<and> fst p = fl (of_int i) \<and> shares tc (toString i) \<noteq> None))
   \<and> (\<forall>ks n j e. keys tc = Some ks \<and> keys_n ks = Some n \<and> (j < 1 \<or> n < j) \<longrightarrow>
        parseTestCase engine (tc\<lparr>shares := (shares tc)(toString j := e)\<rparr>) = parseTestCase engine tc
        \<and> solve engine (tc\<lparr>shares := (shares tc)(toString j := e)\<rparr>) = solve engine tc)"
proof (intro conjI allI impI ballI)
  fix pts n k p
  assume "parseTestCase engine tc = Inr (pts, n, k)" "p \<in> set pts"
  then show "\<exists>i. 1 \<le> i \<and> i \<le> n \<and> fst p = fl (of_int i) \<and> shares tc (toString i) \<noteq> None"
    by (rule parseTestCase_points)
next
  fix ks n j e
  assume a: "keys tc = Some ks \<and> keys_n ks = Some n \<and> (j < 1 \<or> n < j)"
  then show p: "parseTestCase engine (tc\<lparr>shares := (shares tc)(toString j := e)\<rparr>) = parseTestCase engine tc"
    using parseTestCase_outside by blast
  then show "solve engine (tc\<lparr>shares := (shares tc)(toString j := e)\<rparr>) = solve engine tc"
    by (simp add: solve_def)
qed

theorem shares_beyond_n_are_ignored_witness:
  "parseTestCase mathInt exampleTestCase1 = Inr ([(Fin 1, Fin 4), (Fin 2, Fin 7), (Fin 3, Fin 12)], 4, 3)
   \<and> (Fin 3, Fin 12) \<in> set [(Fin 1, Fin 4), (Fin 2, Fin 7), (Fin 3, Fin 12)]
   \<and> (\<exists>i. 1 \<le> i \<and> i \<le> 4 \<and> fst (Fin 3, Fin 12 :: jsnum) = fl (of_int i)
          \<and> shares exampleTestCase1 (toString i) \<noteq> None)
   \<and> keys exampleTestCase1 = Some \<lparr>keys_n = Some 4, keys_k = Some 3\<rparr>
   \<and> keys_n \<lparr>keys_n = Some 4, keys_k = Some 3\<rparr> = Some 4 \<and> ((6::int) < 1 \<or> (4::int) < 6)
   \<and> shares exampleTestCase1 (toString 6) \<noteq> None
   \<and> solve mathInt (exampleTestCase1\<lparr>shares := (shares exampleTestCase1)(toString 6 := None)\<rparr>)
       = solve mathInt exampleTestCase1"
proof -
  have k: "keys exampleTestCase1 = Some \<lparr>keys_n = Some 4, keys_k = Some 3\<rparr>"
    by (simp add: exampleTestCase1_def)
  have s: "shares exampleTestCase1 (toString 6) \<noteq> None"
    by (simp add: exampleTestCase1_def toString_def)
  show ?thesis
    using shares_beyond_n_are_ignored [of mathInt exampleTestCase1] parse_example [of mathInt] k s by simp
qed

section \<open>The solve boundary\<close>

lemma parse_enough_points:
  "parseTestCase engine tc = Inr (pts, n, k) \<Longrightarrow> \<not> int (length pts) < k"
  by (auto simp: parseTestCase_def split: option.splits sum.splits if_splits)

text \<open>
  C6. \<open>solve\<close> returns a record on every test case. An error of \<open>parseTestCase\<close> (its own,
  or one of \<open>baseToDecimal\<close> wrapped by it) comes back as the failure record with that error
  and every other field empty; when \<open>parseTestCase\<close> returns, there are at least \<open>k\<close> points,
  \<open>lagrangeInterpolation\<close> cannot raise, and the success record comes back. \<open>solveMultiple\<close>
  returns one result for each test case, in order, the \<open>i\<close>-th tagged \<open>i\<close> and equal to \<open>solve\<close>
  of the \<open>i\<close>-th test case alone, whatever the other test cases are.
\<close>

theorem solve_returns_every_error:
  "(\<forall>e. parseTestCase engine tc = Inl e \<longrightarrow>
      solve engine tc = \<lparr>success = False, secret = None, points = None, parameters = None,
                   validation = None, error = Some e\<rparr>)
   \<and> (\<forall>pts n k. parseTestCase engine tc = Inr (pts, n, k) \<longrightarrow>
        (\<exists>sec. lagrangeInterpolation pts k = Inr sec
           \<and> solve engine tc = \<lparr>success = True, secret = Some sec, points = Some pts,
                          parameters = Some \<lparr>param_n = n, param_k = k, degree = k - 1\<rparr>,
                          validation = Some (validateSolution pts sec k), error = None\<rparr>))
   \<and> length (solveMultiple engine tcs) = length tcs
   \<and> (\<forall>i<length tcs. solveMultiple engine tcs ! i = (i, solve engine (tcs ! i)))"
proof (intro conjI allI impI)
  fix e assume "parseTestCase engine tc = Inl e"
  then show "solve engine tc = \<lparr>success = False, secret = None, points = None, parameters = None,
                   validation = None, error = Some e\<rparr>"
    by (simp add: solve_def failure_def)
next
  fix pts n k assume p: "parseTestCase engine tc = Inr (pts, n, k)"
  then have "\<not> int (length pts) < k" by (rule parse_enough_points)
  then show "\<exists>sec. lagrangeInterpolation pts k = Inr sec
           \<and> solve engine tc = \<lparr>success = True, secret = Some sec, points = Some pts,
                          parameters = Some \<lparr>param_n = n, param_k = k, degree = k - 1\<rparr>,
                          validation = Some (validateSolution pts sec k), error = None\<rparr>"
    using p by (simp add: solve_def lagrangeInterpolation_def)
next
  show "length (solveMultiple engine tcs) = length tcs" by (simp add: solveMultiple_def)
next
  fix i assume "i < length tcs"
  then show "solveMultiple engine tcs ! i = (i, solve engine (tcs ! i))"
    by (simp add: solveMultiple_def nth_enumerate_eq)
qed

theorem solve_returns_every_error_witness:
  "parseTestCase mathInt \<lparr>keys = None, shares = Map.empty\<rparr> = Inl MissingKeys
   \<and> solve mathInt \<lparr>keys = None, shares = Map.empty\<rparr>
       = \<lparr>success = False, secret = None, points = None, parameters = None,
          validation = None, error = Some MissingKeys\<rparr>
   \<and> parseTestCase mathInt exampleTestCase1 = Inr ([(Fin 1, Fin 4), (Fin 2, Fin 7), (Fin 3, Fin 12)], 4, 3)
   \<and> success (solve mathInt exampleTestCase1)
   \<and> length (solveMultiple mathInt [\<lparr>keys = None, shares = Map.empty\<rparr>, exampleTestCase1]) = 2
   \<and> (1::nat) < length [\<lparr>keys = None, shares = Map.empty\<rparr>, exampleTestCase1]
   \<and> solveMultiple mathInt [\<lparr>keys = None, shares = Map.empty\<rparr>, exampleTestCase1] ! 1
       = (1, solve mathInt exampleTestCase1)"
proof -
  have m: "parseTestCase mathInt \<lparr>keys = None, shares = Map.empty\<rparr> = Inl MissingKeys"
    by (simp add: parseTestCase_def)
  show ?thesis
    using m parse_example [of mathInt]
      solve_returns_every_error [of mathInt "\<lparr>keys = None, shares = Map.empty\<rparr>"
        "[\<lparr>keys = None, shares = Map.empty\<rparr>, exampleTestCase1]"]
      solve_returns_every_error [of mathInt exampleTestCase1 "[]"]
    by auto
qed

text \<open>
  C10, as stated, fails in its last part. A threshold of \<open>-1\<close> is not falsy: it passes the
  guard, no point count is below it, \<^verbatim>\<open>slice(0, -1)\<close> of the one point is empty, and \<open>solve\<close>
  succeeds with \<open>k = -1\<close>.
\<close>

theorem negative_threshold_counterexample:
  "solve mathInt \<lparr>keys = Some \<lparr>keys_n = Some 1, keys_k = Some (- 1)\<rparr>,
          shares = [''1'' \<mapsto> \<lparr>share_base = ''10'', share_value = ''5''\<rparr>]\<rparr>
   = \<lparr>success = True, secret = Some (Fin 0), points = Some [(Fin 1, Fin 5)],
      parameters = Some \<lparr>param_n = 1, param_k = - 1, degree = - 2\<rparr>,
      validation = Some
        \<lparr>isValid = False,
         results = [\<lparr>point = (Fin 1, Fin 5), calculated = Fin 0, difference = Fin 5, valid = False\<rparr>],
         tolerance = fl (1 / 10 ^ 10)\<rparr>,
      error = None\<rparr>"
  by (simp add: solve_def parseTestCase_def falsy_def upto_1_1 toString_small
      baseToDecimal_def parse_evals validateSolution_def interp_evals js_ops fl_evals tolerance_numeral)

text \<open>
  C10, amended. When \<open>keys\<close>, \<open>keys.n\<close> or \<open>keys.k\<close> is missing, or \<open>keys.n\<close> or \<open>keys.k\<close> is 0,
  \<open>solve\<close> returns the failure record with the missing-keys error; so in every successful
  result \<open>n\<close> and \<open>k\<close> are the declared keys and neither is 0.
\<close>

theorem zero_keys_are_missing_keys:
  "((keys tc = None
      \<or> (\<exists>ks. keys tc = Some ks
            \<and> (keys_n ks = None \<or> keys_n ks = Some 0 \<or> keys_k ks = None \<or> keys_k ks = Some 0))) \<longrightarrow>
      solve engine tc = \<lparr>success = False, secret = None, points = None, parameters = None,
                   validation = None, error = Some MissingKeys\<rparr>)
   \<and> (success (solve engine tc) \<longrightarrow>
        (\<exists>ks n k. keys tc = Some ks \<and> keys_n ks = Some n \<and> keys_k ks = Some k \<and> n \<noteq> 0 \<and> k \<noteq> 0
           \<and> parameters (solve engine tc) = Some \<lparr>param_n = n, param_k = k, degree = k - 1\<rparr>))"
proof (intro conjI impI)
  assume "keys tc = None
      \<or> (\<exists>ks. keys tc = Some ks
            \<and> (keys_n ks = None \<or> keys_n ks = Some 0 \<or> keys_k ks = None \<or> keys_k ks = Some 0))"
  then have "parseTestCase engine tc = Inl MissingKeys"
    by (auto simp: parseTestCase_def falsy_def)
  then show "solve engine tc = \<lparr>success = False, secret = None, points = None, parameters = None,
                   validation = None, error = Some MissingKeys\<rparr>"
    by (simp add: solve_def failure_def)
next
  assume s: "success (solve engine tc)"
  then obtain pts n k where p: "parseTestCase engine tc = Inr (pts, n, k)"
    by (cases "parseTestCase engine tc") (auto simp: solve_def failure_def)
  then obtain ks where ks: "keys tc = Some ks" "keys_n ks = Some n" "keys_k ks = Some k" "n \<noteq> 0" "k \<noteq> 0"
    by (auto simp: parseTestCase_def falsy_def split: option.splits sum.splits if_splits)
  have "parameters (solve engine tc) = Some \<lparr>param_n = n, param_k = k, degree = k - 1\<rparr>"
    using p s by (auto simp: solve_def failure_def split: sum.splits)
  then show "\<exists>ks n k. keys tc = Some ks \<and> keys_n ks = Some n \<and> keys_k ks = Some k \<and> n \<noteq> 0 \<and> k \<noteq> 0
           \<and> parameters (solve engine tc) = Some \<lparr>param_n = n, param_k = k, degree = k - 1\<rparr>"
    using ks by blast
qed

theorem zero_keys_are_missing_keys_witness:
  "keys \<lparr>keys = Some \<lparr>keys_n = Some 4, keys_k = Some 0\<rparr>, shares = shares exampleTestCase1\<rparr>
     = Some \<lparr>keys_n = Some 4, keys_k = Some 0\<rparr>
   \<and> solve mathInt \<lparr>keys = Some \<lparr>keys_n = Some 4, keys_k = Some 0\<rparr>, shares = shares exampleTestCase1\<rparr>
       = \<lparr>success = False, secret = None, points = None, parameters = None,
          validation = None, error = Some MissingKeys\<rparr>
   \<and> success (solve mathInt exampleTestCase1)
   \<and> parameters (solve mathInt exampleTestCase1) = Some \<lparr>param_n = 4, param_k = 3, degree = 2\<rparr>"
  using zero_keys_are_missing_keys [of "\<lparr>keys = Some \<lparr>keys_n = Some 4, keys_k = Some 0\<rparr>, shares = shares exampleTestCase1\<rparr>" mathInt]
    zero_keys_are_missing_keys [of exampleTestCase1 mathInt] solve_example_success [of mathInt]
  by (auto simp: exampleTestCase1_def)

end
